theory Spec2Isabelle
  imports Complex_Main
begin

section \<open>The AutoRally state estimator (StateEstimator.cpp)\<close>

text \<open>
  A shallow embedding of \<^verbatim>\<open>autorally_core/src/StateEstimator/StateEstimator.cpp\<close>.
  The class \<^verbatim>\<open>StateEstimator\<close> becomes a record of its members, every member function a
  HOL function that takes the object and returns the updated object together with the
  messages it published. A \<^verbatim>\<open>double\<close> is a \<^typ>\<open>real\<close>: the properties below depend on
  the order of time stamps and on which operation is applied to which operand, not on
  rounding. GTSAM, GeographicLib and ROS are libraries outside the file; what the file asks
  of them is collected in the record \<open>ext\<close> and stays a parameter of every function.
\<close>

subsection \<open>Messages\<close>

type_synonym vec3 = "real \<times> real \<times> real"

text \<open>A quaternion in the order \<open>(w, x, y, z)\<close>.\<close>

type_synonym quat = "real \<times> real \<times> real \<times> real"

record NavSatFix =
  fix_stamp :: real
  latitude :: real
  longitude :: real
  altitude :: real

record Imu =
  imu_stamp :: real
  linear_acceleration :: vec3
  angular_velocity :: vec3

record Odometry =
  odom_stamp :: real
  odom_orientation :: quat
  odom_position :: vec3

text \<open>\<^verbatim>\<open>imu_3dm_gx4::FilterOutput\<close>, as far as the file reads it.\<close>

record FilterOutput =
  fo_orientation :: quat
  fo_bias :: vec3

text \<open>
  \<^verbatim>\<open>nav_msgs::Odometry poseNew\<close> as \<^verbatim>\<open>ImuCallback\<close> fills it. \<^verbatim>\<open>Vector3 gyro\<close> is declared
  without an initialiser, so the angular rate is \<open>None\<close> when it is computed from a
  \<^verbatim>\<open>gyro\<close> that no call of \<^verbatim>\<open>GetAccGyro\<close> has written.
\<close>

record PoseMsg =
  pm_stamp :: real
  pm_orientation :: quat
  pm_position :: vec3
  pm_linear :: vec3
  pm_angular :: "vec3 option"

text \<open>
  Everything the node sends out. \<^verbatim>\<open>delays.y\<close> of the \<^verbatim>\<open>time_delays\<close> message is the wall
  clock minus the stamp and is left out: \<open>TimePub x z\<close> carries \<^verbatim>\<open>delays.x\<close> and
  \<^verbatim>\<open>delays.z\<close>.
\<close>

datatype effect =
    Warn string
  | WarnQueueSize int
  | Cout string
  | DiagOk string
  | PosePub PoseMsg
  | BiasAccPub vec3
  | BiasGyroPub vec3
  | TimePub real real

fun isPosePub :: "effect \<Rightarrow> bool" where
  "isPosePub (PosePub m) = True"
| "isPosePub _ = False"

fun isDropWarning :: "effect \<Rightarrow> bool" where
  "isDropWarning (Warn w) = True"
| "isDropWarning _ = False"

subsection \<open>The bounded queues\<close>

text \<open>
  Modelled from the spec: the class \<^verbatim>\<open>BlockingQueue\<close> behind \<^verbatim>\<open>m_gpsOptQ\<close>, \<^verbatim>\<open>m_ImuOptQ\<close>
  and \<^verbatim>\<open>m_odomOptQ\<close> is declared in a header that is not part of the sources. Section 4.1:
  \<^verbatim>\<open>push_non_blocking\<close> "enqueues if capacity remains; returns failure (and the sample is
  dropped) if full", \<^verbatim>\<open>pop_blocking\<close> "suspends the calling thread until an element is
  available, FIFO order", \<^verbatim>\<open>size\<close> is the "current depth". A pop that would suspend is
  \<open>None\<close>.
\<close>

record 'a queue =
  maxSize :: nat
  items :: "'a list"

definition newQueue :: "nat \<Rightarrow> 'a queue" where
  "newQueue n = \<lparr>maxSize = n, items = []\<rparr>"

definition qsize :: "'a queue \<Rightarrow> nat" where
  "qsize q = length (items q)"

definition pushNonBlocking :: "'a queue \<Rightarrow> 'a \<Rightarrow> bool \<times> 'a queue" where
  "pushNonBlocking q x =
     (if qsize q < maxSize q then (True, q\<lparr>items := items q @ [x]\<rparr>) else (False, q))"

definition popBlocking :: "'a queue \<Rightarrow> ('a \<times> 'a queue) option" where
  "popBlocking q =
     (case items q of [] \<Rightarrow> None | x # xs \<Rightarrow> Some (x, q\<lparr>items := xs\<rparr>))"

subsection \<open>GTSAM values, keys and factors\<close>

text \<open>\<^verbatim>\<open>Rot3\<close> built from a quaternion, \<^verbatim>\<open>Pose3\<close> from a rotation and a point.\<close>

type_synonym pose3 = "quat \<times> vec3"

text \<open>\<^verbatim>\<open>NavState(pose, velocity)\<close>.\<close>

type_synonym navstate = "pose3 \<times> vec3"

text \<open>\<^verbatim>\<open>imuBias::ConstantBias\<close>: accelerometer bias, then gyroscope bias.\<close>

type_synonym bias = "vec3 \<times> vec3"

definition zeroBias :: bias where
  "zeroBias = ((0, 0, 0), (0, 0, 0))"

definition gyroscope :: "bias \<Rightarrow> vec3" where
  "gyroscope b = snd b"

definition accelerometer :: "bias \<Rightarrow> vec3" where
  "accelerometer b = fst b"

text \<open>
  \<^verbatim>\<open>PreintegratedImuMeasurements\<close>, seen through the calls the file makes: it is built with
  a gravity magnitude and a bias, \<^verbatim>\<open>integrateMeasurement\<close> folds one \<open>(acc, gyro, dt)\<close> in,
  \<^verbatim>\<open>resetIntegration\<close> forgets what was folded in and keeps the bias of the construction,
  \<^verbatim>\<open>deltaTij\<close> is the time integrated so far.
\<close>

record preint =
  pi_gravity :: real
  biasHat :: bias
  integrated :: "(vec3 \<times> vec3 \<times> real) list"

definition newPreint :: "real \<Rightarrow> bias \<Rightarrow> preint" where
  "newPreint g b = \<lparr>pi_gravity = g, biasHat = b, integrated = []\<rparr>"

definition resetIntegration :: "preint \<Rightarrow> preint" where
  "resetIntegration p = p\<lparr>integrated := []\<rparr>"

definition integrateMeasurement :: "preint \<Rightarrow> vec3 \<Rightarrow> vec3 \<Rightarrow> real \<Rightarrow> preint" where
  "integrateMeasurement p acc gyro dt = p\<lparr>integrated := integrated p @ [(acc, gyro, dt)]\<rparr>"

definition deltaTij :: "preint \<Rightarrow> real" where
  "deltaTij p = sum_list (map (\<lambda>m. snd (snd m)) (integrated p))"

text \<open>The keys \<^verbatim>\<open>X(i)\<close>, \<^verbatim>\<open>V(i)\<close>, \<^verbatim>\<open>B(i)\<close>, \<^verbatim>\<open>G(i)\<close> of \<^verbatim>\<open>symbol_shorthand\<close>.\<close>

datatype key = X nat | V nat | B nat | G nat

datatype val = PoseVal pose3 | VelVal vec3 | BiasVal bias

text \<open>
  The noise model of a factor is kept by name: \<open>OdomNoise\<close> is the diagonal model of the
  wheel odometry factor, \<open>ImuGpsNoise\<close> the one of the IMU-to-GPS offset factor, and
  \<open>BiasWalkNoise dT\<close> stands for \<^verbatim>\<open>sqrt(deltaTij) * noiseModelBetweenbias_sigma\<close>.
\<close>

datatype noise =
    PriorNoisePose | PriorNoiseVel | PriorNoiseBias
  | ImuGpsNoise | OdomNoise | GpsNoise | BiasWalkNoise real

datatype factor =
    PriorPose key pose3 noise
  | PriorVel key vec3 noise
  | PriorBias key bias noise
  | BetweenPose key key pose3 noise
  | BetweenBias key key bias noise
  | ImuFactor key key key key key preint
  | GPSFactor key vec3 noise


text \<open>The wheel odometry factor is the \<^verbatim>\<open>BetweenFactor<Pose3>\<close> with the odometry noise.\<close>

fun isOdomFactor :: "factor \<Rightarrow> bool" where
  "isOdomFactor (BetweenPose k1 k2 p n) = (n = OdomNoise)"
| "isOdomFactor _ = False"

subsection \<open>The libraries the node calls\<close>

text \<open>
  \<open>enu_Forward origin lla\<close> is \<^verbatim>\<open>LocalCartesian::Forward\<close> of an object reset to \<open>origin\<close>.
  \<open>isam_update\<close> is \<^verbatim>\<open>ISAM2::update\<close> and \<open>isam_pose\<close>, \<open>isam_vel\<close>, \<open>isam_bias\<close> are
  \<^verbatim>\<open>ISAM2::calculateEstimate\<close> at the three value types; each of them is \<open>None\<close> when the
  call throws. \<open>'b\<close> is the state of the solver.
\<close>

record 'b ext =
  enu_Forward :: "vec3 \<Rightarrow> vec3 \<Rightarrow> vec3"
  rot_RzRyRx :: "real \<Rightarrow> real \<Rightarrow> real \<Rightarrow> quat"
  rot_Ypr :: "real \<Rightarrow> real \<Rightarrow> real \<Rightarrow> quat"
  rot_mul :: "quat \<Rightarrow> quat \<Rightarrow> quat"
  pose_compose :: "pose3 \<Rightarrow> pose3 \<Rightarrow> pose3"
  preint_predict :: "preint \<Rightarrow> navstate \<Rightarrow> bias \<Rightarrow> navstate"
  isam_new :: 'b
  isam_update :: "'b \<Rightarrow> factor list \<Rightarrow> (key \<times> val) list \<Rightarrow> 'b option"
  isam_pose :: "'b \<Rightarrow> key \<Rightarrow> pose3 option"
  isam_vel :: "'b \<Rightarrow> key \<Rightarrow> vec3 option"
  isam_bias :: "'b \<Rightarrow> key \<Rightarrow> bias option"

subsection \<open>Parameters and members\<close>

text \<open>
  The ROS parameters the constructor reads, under the names it reads them by. The noise
  sigmas only enter the noise models, which are kept by name, and are left out, as are
  \<^verbatim>\<open>InitialYaw\<close> and \<^verbatim>\<open>Imudt\<close>, which are read and never used.
\<close>

record params =
  SensorTransformX :: real
  SensorTransformY :: real
  SensorTransformZ :: real
  SensorXAngle :: real
  SensorYAngle :: real
  SensorZAngle :: real
  CarXAngle :: real
  CarYAngle :: real
  CarZAngle :: real
  GpsSkip :: int
  Gravity :: real
  InvertX :: bool
  InvertY :: bool
  InvertZ :: bool
  GPSX :: real
  GPSY :: real
  GPSZ :: real
  FixedInitialPose :: bool
  initialRoll :: real
  intialPitch :: real
  initialYaw :: real
  FixedOrigin :: bool
  latOrigin :: real
  lonOrigin :: real
  altOrigin :: real

text \<open>
  Modelled from the spec: the members are declared in \<^verbatim>\<open>StateEstimator.h\<close>, which is not
  part of the sources, so the types of \<^verbatim>\<open>m_biasKey\<close> and \<^verbatim>\<open>m_poseVelKey\<close> are taken from
  the glossary ("monotonically increasing integer") as \<^typ>\<open>nat\<close>. \<open>gh_prevTime\<close> and
  \<open>gh_curTime\<close> are the locals \<^verbatim>\<open>prevTime\<close> and \<^verbatim>\<open>curTime\<close> of \<^verbatim>\<open>GpsHelper\<close>, which live
  across the iterations of its loop. \<^verbatim>\<open>m_lastIMU\<close> is a pointer, \<open>None\<close> while it is null.
  \<open>m_enu\<close> is the origin of the \<^verbatim>\<open>LocalCartesian\<close> object.
\<close>

record 'b StateEstimator =
  m_biasKey :: nat
  m_poseVelKey :: nat
  m_lastImuT :: real
  m_lastImuTgps :: real
  m_imuQPrevTime :: real
  m_gpsCounter :: int
  m_maxQSize :: int
  m_gpsOptQ :: "NavSatFix queue"
  m_ImuOptQ :: "Imu queue"
  m_odomOptQ :: "Odometry queue"
  m_gotFirstFix :: bool
  m_imuPgps :: pose3
  m_enu :: vec3
  m_optimizedState :: navstate
  m_optimizedBias :: bias
  m_optimizedTime :: real
  m_previousBias :: bias
  m_imuPredictor :: preint
  m_imuMeasurements :: "Imu list"
  m_lastIMU :: "Imu option"
  m_initialPose :: FilterOutput
  m_bodyPSensor :: pose3
  m_carENUPcarNED :: pose3
  m_prevPose :: pose3
  m_prevVel :: vec3
  m_isam :: 'b
  gh_prevTime :: real
  gh_curTime :: real

subsection \<open>The producer callbacks\<close>

text \<open>\<^verbatim>\<open>GpsCallback\<close>, lines 260 to 264.\<close>

definition GpsCallback :: "'b StateEstimator \<Rightarrow> NavSatFix \<Rightarrow> 'b StateEstimator \<times> effect list" where
  "GpsCallback s fix =
     (case pushNonBlocking (m_gpsOptQ s) fix of
        (ok, q) \<Rightarrow>
          (s\<lparr>m_gpsOptQ := q\<rparr>,
           if \<not> ok then [Warn ''Dropping a GPS measurement due to full queue!!''] else []))"

text \<open>
  \<^verbatim>\<open>WheelOdomCallback\<close>, lines 606 to 610. The result of the push is not looked at, and
  the line that would print a warning is commented out.
\<close>

definition WheelOdomCallback :: "'b StateEstimator \<Rightarrow> Odometry \<Rightarrow> 'b StateEstimator \<times> effect list" where
  "WheelOdomCallback s odom =
     (case pushNonBlocking (m_odomOptQ s) odom of
        (ok, q) \<Rightarrow> (s\<lparr>m_odomOptQ := q\<rparr>, []))"

text \<open>\<^verbatim>\<open>GetAccGyro\<close>, lines 266 to 286.\<close>

definition GetAccGyro :: "params \<Rightarrow> Imu \<Rightarrow> vec3 \<times> vec3" where
  "GetAccGyro P imu =
     (case linear_acceleration imu of (ax, ay, az) \<Rightarrow>
      case angular_velocity imu of (wx, wy, wz) \<Rightarrow>
        (((if InvertX P then - ax else ax),
          (if InvertY P then - ay else ay),
          (if InvertZ P then - az else az)),
         ((if InvertX P then - wx else wx),
          (if InvertY P then - wy else wy),
          (if InvertZ P then - wz else wz))))"

text \<open>
  The first loop of \<^verbatim>\<open>ImuCallback\<close> (lines 538 to 544): while the front of \<^verbatim>\<open>m_imuMeasurements\<close> is older
  than the optimized time it is popped and its stamp becomes \<^verbatim>\<open>m_imuQPrevTime\<close>. The
  result is the remaining buffer, \<^verbatim>\<open>m_imuQPrevTime\<close> and \<^verbatim>\<open>newMeasurements\<close>.
\<close>

fun discardOld :: "real \<Rightarrow> Imu list \<Rightarrow> real \<Rightarrow> bool \<Rightarrow> Imu list \<times> real \<times> bool" where
  "discardOld T [] prev nm = ([], prev, nm)"
| "discardOld T (m # ms) prev nm =
     (if imu_stamp m < T then discardOld T ms (imu_stamp m) True else (m # ms, prev, nm))"

text \<open>
  The second loop (lines 551 to 559): every buffered measurement is integrated with the time since the one
  before it. The result is \<^verbatim>\<open>m_imuQPrevTime\<close>, the predictor and the local \<^verbatim>\<open>gyro\<close>.
\<close>

fun integrateAll ::
  "params \<Rightarrow> Imu list \<Rightarrow> real \<Rightarrow> preint \<Rightarrow> vec3 option \<Rightarrow> real \<times> preint \<times> vec3 option" where
  "integrateAll P [] prev p g = (prev, p, g)"
| "integrateAll P (m # ms) prev p g =
     (let dt_temp = imu_stamp m - prev in
      case GetAccGyro P m of (acc, gyro) \<Rightarrow>
        integrateAll P ms (imu_stamp m) (integrateMeasurement p acc gyro dt_temp) (Some gyro))"

text \<open>Lines 588 to 590: the three sums that fill \<^verbatim>\<open>twist.angular\<close>.\<close>

definition addBias :: "vec3 \<Rightarrow> vec3 \<Rightarrow> vec3" where
  "addBias g b =
     (case g of (gx, gy, gz) \<Rightarrow> case b of (bx, by, bz) \<Rightarrow> (gx + bx, gy + by, gz + bz))"

text \<open>
  The part of \<^verbatim>\<open>ImuCallback\<close> after the early return (lines 535 to 602), on the locals
  \<^verbatim>\<open>optimizedState\<close>, \<^verbatim>\<open>optimizedBias\<close> and \<^verbatim>\<open>optimizedTime\<close> copied under the mutex
  and on the members \<^verbatim>\<open>m_imuMeasurements\<close>, \<^verbatim>\<open>m_imuQPrevTime\<close> and \<^verbatim>\<open>m_imuPredictor\<close>:
  the buffer is trimmed, the predictor is rebuilt or extended, and the pose and the delays
  are published. The result is the three members and the messages.
\<close>

definition predictAndPublish ::
  "'b ext \<Rightarrow> params \<Rightarrow> navstate \<Rightarrow> bias \<Rightarrow> real \<Rightarrow> Imu list \<Rightarrow> real \<Rightarrow> preint \<Rightarrow> Imu \<Rightarrow> real \<Rightarrow>
   (Imu list \<times> real \<times> preint) \<times> effect list" where
  "predictAndPublish E P optimizedState optimizedBias optimizedTime measurements qprev0 pred0 imu dt =
     (case discardOld optimizedTime measurements qprev0 False of
        (buf, qprev, newMeasurements) \<Rightarrow>
     (case (if newMeasurements
            then integrateAll P buf qprev (resetIntegration pred0) None
            else (case GetAccGyro P imu of (acc, gyro) \<Rightarrow>
                    (qprev, integrateMeasurement pred0 acc gyro dt, Some gyro))) of
        (qprev', pred, gyro) \<Rightarrow>
      (let currentPose = preint_predict E pred optimizedState optimizedBias;
           poseNew = \<lparr>pm_stamp = imu_stamp imu,
                      pm_orientation = fst (fst currentPose),
                      pm_position = snd (fst currentPose),
                      pm_linear = snd currentPose,
                      pm_angular = map_option (\<lambda>g. addBias g (gyroscope optimizedBias)) gyro\<rparr>
       in ((buf, qprev', pred),
           [PosePub poseNew, TimePub (imu_stamp imu) (imu_stamp imu - optimizedTime)]))))"

text \<open>\<^verbatim>\<open>ImuCallback\<close>, lines 501 to 604.\<close>

definition ImuCallback ::
  "'b ext \<Rightarrow> params \<Rightarrow> 'b StateEstimator \<Rightarrow> Imu \<Rightarrow> 'b StateEstimator \<times> effect list" where
  "ImuCallback E P s imu =
     (let dt = (if m_lastImuT s = 0 then 0.005 else imu_stamp imu - m_lastImuT s);
          qSize = int (qsize (m_ImuOptQ s));
          grew = (qSize > m_maxQSize s);
          w1 = (if grew \<and> qSize > 20 then [WarnQueueSize qSize] else [])
      in
      (case pushNonBlocking (m_ImuOptQ s) imu of
         (ok, q) \<Rightarrow>
      (let w2 = (if \<not> ok then [Warn ''Dropping an IMU measurement due to full queue!!''] else []);
           s1 = s\<lparr>m_lastImuT := imu_stamp imu,
                  m_maxQSize := (if grew then qSize else m_maxQSize s),
                  m_ImuOptQ := q,
                  m_imuMeasurements := m_imuMeasurements s @ [imu]\<rparr>
       in
       if m_optimizedTime s1 = 0 then (s1, w1 @ w2)
       else (case predictAndPublish E P (m_optimizedState s1) (m_optimizedBias s1)
                    (m_optimizedTime s1) (m_imuMeasurements s1) (m_imuQPrevTime s1)
                    (m_imuPredictor s1) imu dt of
               ((buf, qprev, pred), out) \<Rightarrow>
                 (s1\<lparr>m_imuMeasurements := buf, m_imuQPrevTime := qprev, m_imuPredictor := pred\<rparr>,
                  w1 @ w2 @ out)))))"

subsection \<open>The constructor\<close>

text \<open>
  Lines 179 to 183,
  \<^verbatim>\<open>while (!ip) { ROS_WARN(...); ip = waitForMessage(..., ros::Duration(15)); }\<close>. The list
  holds the results of the successive calls of \<^verbatim>\<open>waitForMessage\<close> that have returned, \<open>None\<close>
  for a call that ran into its 15 seconds. The result is \<open>None\<close> while the loop is still
  waiting.
\<close>

fun waitForInitialPose :: "FilterOutput option list \<Rightarrow> FilterOutput option \<times> effect list" where
  "waitForInitialPose [] = (None, [Warn ''Waiting for valid initial pose''])"
| "waitForInitialPose (None # rest) =
     (case waitForInitialPose rest of (r, w) \<Rightarrow> (r, Warn ''Waiting for valid initial pose'' # w))"
| "waitForInitialPose (Some ip # rest) = (Some ip, [Warn ''Waiting for valid initial pose''])"

text \<open>
  The members when the constructor returns (initialisers at lines 72 to 85, assignments up
  to line 221). \<^verbatim>\<open>NavState()\<close> and \<^verbatim>\<open>Pose3()\<close> are the identity pose with no velocity.
\<close>

definition identityPose :: pose3 where
  "identityPose = ((1, 0, 0, 0), (0, 0, 0))"

definition initialMembers :: "'b ext \<Rightarrow> params \<Rightarrow> FilterOutput \<Rightarrow> 'b StateEstimator" where
  "initialMembers E P ip =
     \<lparr>m_biasKey = 0,
      m_poseVelKey = 0,
      m_lastImuT = 0,
      m_lastImuTgps = 0,
      m_imuQPrevTime = 0,
      m_gpsCounter = 0,
      m_maxQSize = 0,
      m_gpsOptQ = newQueue 40,
      m_ImuOptQ = newQueue 400,
      m_odomOptQ = newQueue 100,
      m_gotFirstFix = False,
      m_imuPgps = ((1, 0, 0, 0), (GPSX P, GPSY P, GPSZ P)),
      m_enu = (if FixedOrigin P then (latOrigin P, lonOrigin P, altOrigin P) else (0, 0, 0)),
      m_optimizedState = (identityPose, (0, 0, 0)),
      m_optimizedBias = zeroBias,
      m_optimizedTime = 0,
      m_previousBias = zeroBias,
      m_imuPredictor = newPreint (Gravity P) zeroBias,
      m_imuMeasurements = [],
      m_lastIMU = None,
      m_initialPose = ip,
      m_bodyPSensor = (rot_RzRyRx E (SensorXAngle P) (SensorYAngle P) (SensorZAngle P),
                       (SensorTransformX P, SensorTransformY P, SensorTransformZ P)),
      m_carENUPcarNED = (rot_RzRyRx E (CarXAngle P) (CarYAngle P) (CarZAngle P), (0, 0, 0)),
      m_prevPose = identityPose,
      m_prevVel = (0, 0, 0),
      m_isam = isam_new E,
      gh_prevTime = 0,
      gh_curTime = 0\<rparr>"

text \<open>
  The constructor with its two ways to an initial pose (lines 177 to 197); it is \<open>None\<close>
  while it has not returned.
\<close>

definition construct ::
  "'b ext \<Rightarrow> params \<Rightarrow> FilterOutput option list \<Rightarrow> 'b StateEstimator option \<times> effect list" where
  "construct E P attempts =
     (case (if \<not> FixedInitialPose P then waitForInitialPose attempts
            else (Some \<lparr>fo_orientation = rot_Ypr E (initialYaw P) (intialPitch P) (initialRoll P),
                        fo_bias = (0, 0, 0)\<rparr>,
                  [Warn ''Using fixed initial pose''])) of
        (None, w) \<Rightarrow> (None, w)
      | (Some ip, w) \<Rightarrow> (Some (initialMembers E P ip), w))"

subsection \<open>One iteration of the loop of \<^verbatim>\<open>GpsHelper\<close>\<close>

text \<open>
  An iteration runs against the queues as it finds them. It is \<open>Done\<close> with the new members
  and what it published, \<open>Blocked\<close> when it reaches a \<^verbatim>\<open>popBlocking\<close> on an empty queue (the
  thread is then suspended inside the iteration), \<open>Fault\<close> with the members at that moment
  when a call into the solver throws, and \<open>Crashed\<close> when it dereferences a null pointer.
\<close>

datatype 'b iter =
    Done "'b StateEstimator" "effect list"
  | Blocked
  | Fault "'b StateEstimator"
  | Crashed

datatype 'a attempt = Ready 'a | Suspended | NullPointer

text \<open>
  Lines 309 to 313,
  \<^verbatim>\<open>while (m_gpsOptQ.size() > 0) { fix = m_gpsOptQ.popBlocking(); ... }\<close>: the fix that is
  kept and what is left of the queue.
\<close>

fun drainGps :: "NavSatFix \<Rightarrow> NavSatFix list \<Rightarrow> NavSatFix \<times> NavSatFix list" where
  "drainGps fix [] = (fix, [])"
| "drainGps fix (f # fs) = drainGps f fs"

text \<open>
  The choice between GPS and odometry at the head of the loop body (lines 298 to 321). The
  result is \<^verbatim>\<open>fix\<close>,
  \<^verbatim>\<open>usingGPS\<close>, \<^verbatim>\<open>usingOdom\<close> and the members, \<^verbatim>\<open>curTime\<close> among them.
\<close>

definition selectTrigger ::
  "'b StateEstimator \<Rightarrow> (NavSatFix option \<times> bool \<times> bool \<times> 'b StateEstimator) option" where
  "selectTrigger s =
     (if \<not> m_gotFirstFix s \<or> qsize (m_gpsOptQ s) > 0 then
        (case popBlocking (m_gpsOptQ s) of
           None \<Rightarrow> None
         | Some (f0, q) \<Rightarrow>
             (case drainGps f0 (items q) of
                (fix, rest) \<Rightarrow>
                  Some (Some fix, True, False,
                        s\<lparr>m_gpsOptQ := q\<lparr>items := rest\<rparr>, gh_curTime := fix_stamp fix\<rparr>)))
      else if m_gotFirstFix s \<and> qsize (m_odomOptQ s) > 0 then
        Some (None, False, True, s\<lparr>gh_curTime := odom_stamp (last (items (m_odomOptQ s)))\<rparr>)
      else Some (None, False, False, s))"

text \<open>
  The loop that reads IMU measurements up to the first fix (lines 376 to 380): the
  measurement held, the value
  of \<^verbatim>\<open>m_lastImuTgps\<close> and the rest of the queue, \<open>None\<close> when the queue runs empty first.
\<close>

fun readImuUpTo :: "real \<Rightarrow> Imu \<Rightarrow> real \<Rightarrow> Imu list \<Rightarrow> (Imu \<times> real \<times> Imu list) option" where
  "readImuUpTo T held tg [] = (if imu_stamp held < T then None else Some (held, tg, []))"
| "readImuUpTo T held tg (m # ms) =
     (if imu_stamp held < T then readImuUpTo T m (imu_stamp held) ms
      else Some (held, tg, m # ms))"

text \<open>The factors and the variables of the first iteration, lines 350 to 369.\<close>

definition bootstrapFactors :: "pose3 \<Rightarrow> bias \<Rightarrow> pose3 \<Rightarrow> factor list" where
  "bootstrapFactors x0 biases imuPgps =
     [PriorPose (X 0) x0 PriorNoisePose,
      PriorVel (V 0) (0, 0, 0) PriorNoiseVel,
      PriorBias (B 0) biases PriorNoiseBias,
      BetweenPose (X 0) (G 0) imuPgps ImuGpsNoise]"

definition bootstrapVariables :: "'b ext \<Rightarrow> pose3 \<Rightarrow> bias \<Rightarrow> pose3 \<Rightarrow> (key \<times> val) list" where
  "bootstrapVariables E x0 biases imuPgps =
     [(X 0, PoseVal x0),
      (V 0, VelVal (0, 0, 0)),
      (B 0, BiasVal biases),
      (G 0, PoseVal (pose_compose E x0 imuPgps))]"

text \<open>The branch \<^verbatim>\<open>if (!m_gotFirstFix)\<close>, lines 323 to 384.\<close>

definition bootstrap :: "'b ext \<Rightarrow> params \<Rightarrow> 'b StateEstimator \<Rightarrow> NavSatFix \<Rightarrow> 'b iter" where
  "bootstrap E P s fix =
     (let lla = (latitude fix, longitude fix, altitude fix);
          enu = (if \<not> FixedOrigin P then lla else m_enu s);
          ENU = (if \<not> FixedOrigin P then (0, 0, 0) else enu_Forward E (m_enu s) lla);
          initialOrientation = fo_orientation (m_initialPose s);
          x0 = (rot_mul E (rot_mul E (fst (m_bodyPSensor s)) initialOrientation)
                  (fst (m_carENUPcarNED s)), ENU);
          biases = ((0, 0, 0),
                    (case fo_bias (m_initialPose s) of (bx, by, bz) \<Rightarrow> (bx, - by, - bz)));
          s1 = s\<lparr>m_gotFirstFix := True, m_enu := enu, m_prevPose := x0, m_previousBias := biases\<rparr>
      in
      case isam_update E (m_isam s1) (bootstrapFactors x0 biases (m_imuPgps s))
             (bootstrapVariables E x0 biases (m_imuPgps s)) of
        None \<Rightarrow> Fault s1
      | Some b \<Rightarrow>
          (case popBlocking (m_ImuOptQ s1) of
             None \<Rightarrow> Blocked
           | Some (imu0, q) \<Rightarrow>
               (case readImuUpTo (fix_stamp fix) imu0 (imu_stamp imu0 - 0.005) (items q) of
                  None \<Rightarrow> Blocked
                | Some (held, tg, rest) \<Rightarrow>
                    Done (s1\<lparr>m_isam := b, m_lastIMU := Some held, m_lastImuTgps := tg,
                              m_ImuOptQ := q\<lparr>items := rest\<rparr>, gh_prevTime := gh_curTime s1\<rparr>)
                         [Cout ''Initial orientation''])))"

text \<open>
  Lines 404 and 405,
  \<^verbatim>\<open>while (m_odomOptQ.size() != 0 && front stamp < curTime) lastOdom = popBlocking()\<close>.
\<close>

fun advanceLast :: "real \<Rightarrow> Odometry \<Rightarrow> Odometry list \<Rightarrow> Odometry \<times> Odometry list" where
  "advanceLast T l [] = (l, [])"
| "advanceLast T l (m # ms) =
     (if odom_stamp m < T then advanceLast T m ms else (l, m # ms))"

text \<open>
  The integration loop of the corrector (lines 422 to 430): \<^verbatim>\<open>m_lastIMU\<close>,
  \<^verbatim>\<open>m_lastImuTgps\<close>,
  \<^verbatim>\<open>pre_int_data\<close> and the rest of the queue, \<open>None\<close> when the queue runs empty first.
\<close>

fun integrateUpTo ::
  "params \<Rightarrow> real \<Rightarrow> Imu \<Rightarrow> real \<Rightarrow> preint \<Rightarrow> Imu list \<Rightarrow> (Imu \<times> real \<times> preint \<times> Imu list) option" where
  "integrateUpTo P T held tg p [] = (if imu_stamp held < T then None else Some (held, tg, p, []))"
| "integrateUpTo P T held tg p (m # ms) =
     (if imu_stamp held < T then
        (case GetAccGyro P held of (acc, gyro) \<Rightarrow>
           integrateUpTo P T m (imu_stamp held)
             (integrateMeasurement p acc gyro (imu_stamp held - tg)) ms)
      else Some (held, tg, p, m # ms))"

text \<open>
  The wheel odometry part (lines 400 to 418). \<^verbatim>\<open>betweenOdomPose\<close> is built from \<^verbatim>\<open>firstOdom\<close>; the value of
  \<^verbatim>\<open>betweenOdomPose.between(lastOdomPose)\<close> is not assigned to anything, so the pose that
  goes into the factor is the one of \<^verbatim>\<open>firstOdom\<close>, and both keys are \<^verbatim>\<open>X(m_poseVelKey)\<close>.
  The result is the rest of the queue and the factors added.
\<close>

definition odomPart ::
  "nat \<Rightarrow> bool \<Rightarrow> real \<Rightarrow> Odometry \<Rightarrow> Odometry \<Rightarrow> Odometry list \<Rightarrow> Odometry list \<times> factor list" where
  "odomPart k usingGPS curTime firstOdom lastOdom rest =
     (if \<not> usingGPS \<or> odom_stamp lastOdom < curTime then
        (case advanceLast curTime lastOdom rest of
           (lastOdom', rest') \<Rightarrow>
             (let betweenOdomPose = (odom_orientation firstOdom, odom_position firstOdom);
                  lastOdomPose = (odom_orientation lastOdom', odom_position lastOdom')
              in (rest', [BetweenPose (X k) (X k) betweenOdomPose OdomNoise])))
      else (rest, []))"

text \<open>
  The body of \<^verbatim>\<open>else if (usingGPS || usingOdom)\<close> up to the call of \<^verbatim>\<open>m_isam->update\<close>
  (lines 387 to 460; the odometry queue is trimmed at lines 394 to 398):
  the members, \<^verbatim>\<open>newFactors\<close>, \<^verbatim>\<open>newVariables\<close> and what was printed.
\<close>

definition buildBatch ::
  "'b ext \<Rightarrow> params \<Rightarrow> 'b StateEstimator \<Rightarrow> NavSatFix option \<Rightarrow> bool \<Rightarrow>
   ('b StateEstimator \<times> factor list \<times> (key \<times> val) list \<times> effect list) attempt" where
  "buildBatch E P s fix usingGPS =
     (let prevTime = gh_prevTime s;
          curTime = gh_curTime s;
          k = m_poseVelKey s;
          bk = m_biasKey s;
          e0 = (if fix = None then [Cout ''adding factor with no GPS measurement''] else [])
      in
      (case dropWhile (\<lambda>m. odom_stamp m < prevTime) (items (m_odomOptQ s)) of
         [] \<Rightarrow> Suspended
       | [firstOdom] \<Rightarrow> Suspended
       | firstOdom # lastOdom # rest \<Rightarrow>
      (case odomPart k usingGPS curTime firstOdom lastOdom rest of
         (oq, odomFactors) \<Rightarrow>
      (case m_lastIMU s of
         None \<Rightarrow> NullPointer
       | Some held \<Rightarrow>
      (case integrateUpTo P curTime held (m_lastImuTgps s)
              (newPreint (Gravity P) (m_previousBias s)) (items (m_ImuOptQ s)) of
         None \<Rightarrow> Suspended
       | Some (held', tg, pre_int_data, iq) \<Rightarrow>
      (let imuFactors =
             [ImuFactor (X k) (V k) (X (k + 1)) (V (k + 1)) (B bk) pre_int_data,
              BetweenBias (B bk) (B (bk + 1)) zeroBias (BiasWalkNoise (deltaTij pre_int_data))];
           nextNavState =
             preint_predict E pre_int_data (m_prevPose s, m_prevVel s) (m_previousBias s);
           newVariables =
             [(X (k + 1), PoseVal (fst nextNavState)),
              (V (k + 1), VelVal (snd nextNavState)),
              (B (bk + 1), BiasVal (m_previousBias s)),
              (G (k + 1), PoseVal (pose_compose E (fst nextNavState) (m_imuPgps s)))];
           s1 = s\<lparr>m_odomOptQ := (m_odomOptQ s)\<lparr>items := oq\<rparr>,
                  m_ImuOptQ := (m_ImuOptQ s)\<lparr>items := iq\<rparr>,
                  m_lastIMU := Some held',
                  m_lastImuTgps := tg\<rparr>
       in
       if usingGPS then
         (case fix of
            None \<Rightarrow> NullPointer
          | Some f \<Rightarrow>
              Ready (s1,
                     odomFactors @ imuFactors @
                     [GPSFactor (G (k + 1))
                        (enu_Forward E (m_enu s) (latitude f, longitude f, altitude f)) GpsNoise,
                      BetweenPose (X (k + 1)) (G (k + 1)) (m_imuPgps s) ImuGpsNoise],
                     newVariables, e0))
       else Ready (s1, odomFactors @ imuFactors, newVariables, e0)))))))"

text \<open>
  The block under \<^verbatim>\<open>m_optimizedStateMutex\<close> (lines 470 to 475): the three members that
  the predictor reads.
\<close>

definition writeOptimized ::
  "'b StateEstimator \<Rightarrow> navstate \<Rightarrow> bias \<Rightarrow> real \<Rightarrow> 'b StateEstimator" where
  "writeOptimized s st b t = s\<lparr>m_optimizedState := st, m_optimizedBias := b, m_optimizedTime := t\<rparr>"

text \<open>The branch \<^verbatim>\<open>else if (usingGPS || usingOdom)\<close>, lines 385 to 497.\<close>

definition steady ::
  "'b ext \<Rightarrow> params \<Rightarrow> 'b StateEstimator \<Rightarrow> NavSatFix option \<Rightarrow> bool \<Rightarrow> 'b iter" where
  "steady E P s fix usingGPS =
     (case buildBatch E P s fix usingGPS of
        Suspended \<Rightarrow> Blocked
      | NullPointer \<Rightarrow> Crashed
      | Ready (s1, newFactors, newVariables, e0) \<Rightarrow>
     (case isam_update E (m_isam s1) newFactors newVariables of
        None \<Rightarrow> Fault s1
      | Some b \<Rightarrow>
     (case isam_pose E b (X (m_poseVelKey s1 + 1)) of
        None \<Rightarrow> Fault (s1\<lparr>m_isam := b\<rparr>)
      | Some pose \<Rightarrow>
     (case isam_vel E b (V (m_poseVelKey s1 + 1)) of
        None \<Rightarrow> Fault (s1\<lparr>m_isam := b, m_prevPose := pose\<rparr>)
      | Some vel \<Rightarrow>
     (case isam_bias E b (B (m_biasKey s1 + 1)) of
        None \<Rightarrow> Fault (s1\<lparr>m_isam := b, m_prevPose := pose, m_prevVel := vel\<rparr>)
      | Some bs \<Rightarrow>
          Done ((writeOptimized
                   (s1\<lparr>m_isam := b, m_prevPose := pose, m_prevVel := vel, m_previousBias := bs\<rparr>)
                   (pose, vel) bs (gh_curTime s1))
                \<lparr>m_biasKey := m_biasKey s1 + 1,
                 m_poseVelKey := m_poseVelKey s1 + 1,
                 gh_prevTime := gh_curTime s1\<rparr>)
               (e0 @ [DiagOk ''Still ok!'', BiasAccPub (accelerometer bs),
                      BiasGyroPub (gyroscope bs)]))))))"

text \<open>One pass through the body of \<^verbatim>\<open>while (ros::ok())\<close>, lines 295 to 498.\<close>

definition GpsHelper_iter :: "'b ext \<Rightarrow> params \<Rightarrow> 'b StateEstimator \<Rightarrow> 'b iter" where
  "GpsHelper_iter E P s =
     (case selectTrigger s of
        None \<Rightarrow> Blocked
      | Some (fix, usingGPS, usingOdom, s1) \<Rightarrow>
          if \<not> m_gotFirstFix s1 then
            (case fix of None \<Rightarrow> Crashed | Some f \<Rightarrow> bootstrap E P s1 f)
          else if usingGPS \<or> usingOdom then steady E P s1 fix usingGPS
          else Done s1 [])"

subsection \<open>The node\<close>

text \<open>
  The callbacks and the iterations of the corrector thread, interleaved. An iteration is one
  event: it is taken against the queues of that moment, and an iteration that would block is
  not taken. A fault or a crash in the corrector thread ends the process.
\<close>

datatype event = GpsMsg NavSatFix | ImuMsg Imu | OdomMsg Odometry | CorrectorIter

datatype 'b node = Running "'b StateEstimator" | Terminated

fun step :: "'b ext \<Rightarrow> params \<Rightarrow> 'b node \<Rightarrow> event \<Rightarrow> 'b node \<times> effect list" where
  "step E P Terminated ev = (Terminated, [])"
| "step E P (Running s) (GpsMsg f) = (case GpsCallback s f of (s', out) \<Rightarrow> (Running s', out))"
| "step E P (Running s) (ImuMsg m) = (case ImuCallback E P s m of (s', out) \<Rightarrow> (Running s', out))"
| "step E P (Running s) (OdomMsg m) = (case WheelOdomCallback s m of (s', out) \<Rightarrow> (Running s', out))"
| "step E P (Running s) CorrectorIter =
     (case GpsHelper_iter E P s of
        Done s' out \<Rightarrow> (Running s', out)
      | Blocked \<Rightarrow> (Running s, [])
      | Fault s' \<Rightarrow> (Terminated, [])
      | Crashed \<Rightarrow> (Terminated, []))"

fun run :: "'b ext \<Rightarrow> params \<Rightarrow> 'b node \<Rightarrow> event list \<Rightarrow> 'b node \<times> effect list" where
  "run E P n [] = (n, [])"
| "run E P n (ev # evs) =
     (case step E P n ev of
        (n', out) \<Rightarrow> (case run E P n' evs of (n'', out') \<Rightarrow> (n'', out @ out')))"

text \<open>
  What the corrector writes under the mutex, and everything \<^verbatim>\<open>ImuCallback\<close> reads to
  compute the pose it publishes.
\<close>

definition optimizedCell :: "'b StateEstimator \<Rightarrow> navstate \<times> bias \<times> real" where
  "optimizedCell s = (m_optimizedState s, m_optimizedBias s, m_optimizedTime s)"

definition predictorMembers ::
  "'b StateEstimator \<Rightarrow> real \<times> real \<times> Imu list \<times> preint \<times> navstate \<times> bias \<times> real" where
  "predictorMembers s =
     (m_lastImuT s, m_imuQPrevTime s, m_imuMeasurements s, m_imuPredictor s, optimizedCell s)"

text \<open>The factors an iteration hands to \<^verbatim>\<open>m_isam->update\<close>, when it gets that far.\<close>

definition submitted ::
  "'b ext \<Rightarrow> params \<Rightarrow> 'b StateEstimator \<Rightarrow> NavSatFix option \<Rightarrow> bool \<Rightarrow> factor list option" where
  "submitted E P s fix usingGPS =
     (case buildBatch E P s fix usingGPS of
        Ready (s1, newFactors, newVariables, e0) \<Rightarrow> Some newFactors
      | Suspended \<Rightarrow> None
      | NullPointer \<Rightarrow> None)"

subsection \<open>A stand-in for the libraries\<close>

text \<open>
  To run the model on concrete inputs the libraries are replaced by the simplest functions
  of the right types: rotations multiply as quaternions, the tangent plane projection
  subtracts the origin, the prediction leaves the state where it is, and the solver keeps
  every factor and variable it is given and answers with the initial guess. \<open>faultingExt\<close>
  is the same with a solver whose \<^verbatim>\<open>update\<close> throws on the batch of epoch 2.
\<close>

definition qmul :: "quat \<Rightarrow> quat \<Rightarrow> quat" where
  "qmul a b =
     (case a of (w1, x1, y1, z1) \<Rightarrow> case b of (w2, x2, y2, z2) \<Rightarrow>
        (w1 * w2 - x1 * x2 - y1 * y2 - z1 * z2,
         w1 * x2 + x1 * w2 + y1 * z2 - z1 * y2,
         w1 * y2 - x1 * z2 + y1 * w2 + z1 * x2,
         w1 * z2 + x1 * y2 - y1 * x2 + z1 * w2))"

definition vsub :: "vec3 \<Rightarrow> vec3 \<Rightarrow> vec3" where
  "vsub a b = (case a of (x, y, z) \<Rightarrow> case b of (u, v, w) \<Rightarrow> (x - u, y - v, z - w))"

definition vadd :: "vec3 \<Rightarrow> vec3 \<Rightarrow> vec3" where
  "vadd a b = (case a of (x, y, z) \<Rightarrow> case b of (u, v, w) \<Rightarrow> (x + u, y + v, z + w))"

type_synonym echo = "factor list \<times> (key \<times> val) list"

definition echoPose :: "echo \<Rightarrow> key \<Rightarrow> pose3 option" where
  "echoPose b k = (case map_of (snd b) k of Some (PoseVal p) \<Rightarrow> Some p | _ \<Rightarrow> None)"

definition echoVel :: "echo \<Rightarrow> key \<Rightarrow> vec3 option" where
  "echoVel b k = (case map_of (snd b) k of Some (VelVal p) \<Rightarrow> Some p | _ \<Rightarrow> None)"

definition echoBias :: "echo \<Rightarrow> key \<Rightarrow> bias option" where
  "echoBias b k = (case map_of (snd b) k of Some (BiasVal p) \<Rightarrow> Some p | _ \<Rightarrow> None)"

definition testExt :: "echo ext" where
  "testExt =
     \<lparr>enu_Forward = (\<lambda>origin lla. vsub lla origin),
      rot_RzRyRx = (\<lambda>x y z. (1, 0, 0, 0)),
      rot_Ypr = (\<lambda>y p r. (1, 0, 0, 0)),
      rot_mul = qmul,
      pose_compose = (\<lambda>a b. (qmul (fst a) (fst b), vadd (snd a) (snd b))),
      preint_predict = (\<lambda>p st b. st),
      isam_new = ([], []),
      isam_update = (\<lambda>b fs vs. Some (fs @ fst b, vs @ snd b)),
      isam_pose = echoPose,
      isam_vel = echoVel,
      isam_bias = echoBias\<rparr>"

definition faultingExt :: "echo ext" where
  "faultingExt =
     testExt\<lparr>isam_update :=
               (\<lambda>b fs vs. if map_of vs (X 2) = None then Some (fs @ fst b, vs @ snd b) else None)\<rparr>"

definition testParams :: params where
  "testParams =
     \<lparr>SensorTransformX = 0, SensorTransformY = 0, SensorTransformZ = 0,
      SensorXAngle = 0, SensorYAngle = 0, SensorZAngle = 0,
      CarXAngle = 0, CarYAngle = 0, CarZAngle = 0,
      GpsSkip = 5, Gravity = 9.8,
      InvertX = False, InvertY = False, InvertZ = False,
      GPSX = 0, GPSY = 0, GPSZ = 0,
      FixedInitialPose = False, initialRoll = 0, intialPitch = 0, initialYaw = 0,
      FixedOrigin = False, latOrigin = 0, lonOrigin = 0, altOrigin = 0\<rparr>"

text \<open>An initial pose message with a gyroscope bias of 1 about the first axis.\<close>

definition testPose :: FilterOutput where
  "testPose = \<lparr>fo_orientation = (1, 0, 0, 0), fo_bias = (1, 0, 0)\<rparr>"

definition fixAt :: "real \<Rightarrow> NavSatFix" where
  "fixAt t = \<lparr>fix_stamp = t, latitude = t, longitude = 0, altitude = 0\<rparr>"

definition imuAt :: "real \<Rightarrow> Imu" where
  "imuAt t = \<lparr>imu_stamp = t, linear_acceleration = (0, 0, 0), angular_velocity = (1, 0, 0)\<rparr>"

definition odomAt :: "real \<Rightarrow> Odometry" where
  "odomAt t = \<lparr>odom_stamp = t, odom_orientation = (1, 0, 0, 0), odom_position = (t, 0, 0)\<rparr>"

definition testNode :: "echo node" where
  "testNode = Running (initialMembers testExt testParams testPose)"

text \<open>
  Two inertial samples and the first fix, older than both, arrive; the corrector runs its
  first iteration.
\<close>

definition bootstrapped :: "event list" where
  "bootstrapped = [ImuMsg (imuAt 20), ImuMsg (imuAt 30), GpsMsg (fixAt 10), CorrectorIter]"

text \<open>
  After that a second fix and two odometry samples arrive, the corrector runs again, and a
  third inertial sample arrives.
\<close>

definition lateStart :: "event list" where
  "lateStart =
     bootstrapped @
     [GpsMsg (fixAt 12), OdomMsg (odomAt 11), OdomMsg (odomAt 13), CorrectorIter,
      ImuMsg (imuAt 40)]"



text \<open>The members after the first iteration, with three fixes and two odometry samples queued.\<close>

definition steadyMembers :: "echo StateEstimator" where
  "steadyMembers =
     (initialMembers testExt testParams testPose)
       \<lparr>m_gotFirstFix := True,
        m_lastIMU := Some (imuAt 20),
        m_lastImuTgps := 19.995,
        m_gpsOptQ := \<lparr>maxSize = 40, items = [fixAt 11, fixAt 12, fixAt 13]\<rparr>,
        m_ImuOptQ := \<lparr>maxSize = 400, items = [imuAt 30]\<rparr>,
        m_odomOptQ := \<lparr>maxSize = 100, items = [odomAt 11, odomAt 14]\<rparr>,
        gh_prevTime := 10,
        gh_curTime := 10\<rparr>"

text \<open>The same members once the trigger has been selected: the fix stamped 13.\<close>

definition gpsSelected :: "echo StateEstimator" where
  "gpsSelected = steadyMembers\<lparr>m_gpsOptQ := \<lparr>maxSize = 40, items = []\<rparr>, gh_curTime := 13\<rparr>"

text \<open>The same members with no fix queued, once the odometry sample stamped 14 is the trigger.\<close>

definition odomSelected :: "echo StateEstimator" where
  "odomSelected = steadyMembers\<lparr>m_gpsOptQ := \<lparr>maxSize = 40, items = []\<rparr>, gh_curTime := 14\<rparr>"

text \<open>The same members after a correction at time 12 with a gyroscope bias of 1.\<close>

definition anchored :: "echo StateEstimator" where
  "anchored = steadyMembers\<lparr>m_optimizedTime := 12, m_optimizedBias := ((0, 0, 0), (1, 0, 0))\<rparr>"

text \<open>The members before the first iteration, with the first fix and two inertial samples queued.\<close>

definition firstFixQueued :: "echo StateEstimator" where
  "firstFixQueued =
     (initialMembers testExt testParams testPose)
       \<lparr>m_gpsOptQ := \<lparr>maxSize = 40, items = [fixAt 10]\<rparr>,
        m_ImuOptQ := \<lparr>maxSize = 400, items = [imuAt 20, imuAt 30]\<rparr>\<rparr>"

text \<open>The members with all three queues filled to their capacity.\<close>

definition fullQueues :: "echo StateEstimator" where
  "fullQueues =
     (initialMembers testExt testParams testPose)
       \<lparr>m_gpsOptQ := \<lparr>maxSize = 40, items = replicate 40 (fixAt 1)\<rparr>,
        m_ImuOptQ := \<lparr>maxSize = 400, items = replicate 400 (imuAt 1)\<rparr>,
        m_odomOptQ := \<lparr>maxSize = 100, items = replicate 100 (odomAt 1)\<rparr>\<rparr>"

text \<open>Reading a run: the poses published, the members of the node, the factors the solver holds.\<close>

fun published :: "effect list \<Rightarrow> PoseMsg list" where
  "published [] = []"
| "published (PosePub m # out) = m # published out"
| "published (e # out) = published out"

fun membersOf :: "'b node \<Rightarrow> 'b StateEstimator option" where
  "membersOf (Running s) = Some s"
| "membersOf Terminated = None"


text \<open>No queue holds more than its capacity.\<close>

definition queuesBounded :: "'b StateEstimator \<Rightarrow> bool" where
  "queuesBounded s =
     (qsize (m_gpsOptQ s) \<le> maxSize (m_gpsOptQ s) \<and>
      qsize (m_ImuOptQ s) \<le> maxSize (m_ImuOptQ s) \<and>
      qsize (m_odomOptQ s) \<le> maxSize (m_odomOptQ s))"

section \<open>Properties\<close>

subsection \<open>Auxiliary facts\<close>

text \<open>The definitions that are unfolded to run the model on a concrete input.\<close>

lemmas model_defs =
  testExt_def faultingExt_def testParams_def testPose_def fixAt_def imuAt_def odomAt_def testNode_def
  steadyMembers_def gpsSelected_def odomSelected_def anchored_def firstFixQueued_def fullQueues_def
  initialMembers_def newQueue_def newPreint_def zeroBias_def identityPose_def
  GpsCallback_def WheelOdomCallback_def ImuCallback_def predictAndPublish_def GetAccGyro_def
  pushNonBlocking_def popBlocking_def qsize_def resetIntegration_def integrateMeasurement_def
  deltaTij_def addBias_def gyroscope_def accelerometer_def
  selectTrigger_def bootstrap_def bootstrapFactors_def bootstrapVariables_def
  odomPart_def buildBatch_def writeOptimized_def steady_def GpsHelper_iter_def submitted_def
  qmul_def vsub_def vadd_def echoPose_def echoVel_def echoBias_def Let_def
  optimizedCell_def predictorMembers_def

text \<open>The selection of the trigger, and what it leaves unchanged.\<close>

lemma drainGps_last: "drainGps f fs = (last (f # fs), [])"
  by (induction fs arbitrary: f) auto


lemma selectTrigger_members:
  assumes "selectTrigger s = Some (fx, g, od, s1)"
  shows "predictorMembers s1 = predictorMembers s \<and> m_poseVelKey s1 = m_poseVelKey s \<and>
         m_biasKey s1 = m_biasKey s \<and> m_gotFirstFix s1 = m_gotFirstFix s \<and>
         m_isam s1 = m_isam s \<and> m_imuPgps s1 = m_imuPgps s"
  using assms
  by (auto simp: selectTrigger_def predictorMembers_def optimizedCell_def
      split: if_splits option.splits prod.splits)

lemma selectTrigger_idle:
  assumes "selectTrigger s = Some (fx, g, od, s1)" and "m_gotFirstFix s"
  shows "(g \<or> od) = (0 < qsize (m_gpsOptQ s) \<or> 0 < qsize (m_odomOptQ s))"
    and "\<not> g \<Longrightarrow> \<not> od \<Longrightarrow> s1 = s"
  using assms
  by (auto simp: selectTrigger_def split: if_splits option.splits prod.splits)


lemma buildBatch_pair:
  assumes "buildBatch E P s fx g = Ready (s1, fs, vs, e)"
  shows "\<exists>a b rest.
           dropWhile (\<lambda>m. odom_stamp m < gh_prevTime s) (items (m_odomOptQ s)) = a # b # rest"
proof (cases "dropWhile (\<lambda>m. odom_stamp m < gh_prevTime s) (items (m_odomOptQ s))")
  case Nil
  with assms show ?thesis by (simp add: buildBatch_def Let_def)
next
  case (Cons a l)
  with assms show ?thesis by (cases l) (simp_all add: buildBatch_def Let_def)
qed

lemma buildBatch_Ready:
  assumes "buildBatch E P s fx g = Ready (s1, fs, vs, e)"
  shows "\<exists>oq iq h tg. s1 = s\<lparr>m_odomOptQ := oq, m_ImuOptQ := iq, m_lastIMU := h, m_lastImuTgps := tg\<rparr>"
  using assms unfolding buildBatch_def Let_def
  by (simp split: list.splits prod.splits option.splits if_splits) blast+

lemma buildBatch_members:
  assumes "buildBatch E P s fx g = Ready (s1, fs, vs, e)"
  shows "predictorMembers s1 = predictorMembers s \<and> m_poseVelKey s1 = m_poseVelKey s \<and>
         m_biasKey s1 = m_biasKey s \<and> m_gotFirstFix s1 = m_gotFirstFix s \<and>
         m_isam s1 = m_isam s \<and> gh_curTime s1 = gh_curTime s \<and> m_gpsOptQ s1 = m_gpsOptQ s"
proof -
  from buildBatch_Ready [OF assms] obtain oq iq h tg where
    "s1 = s\<lparr>m_odomOptQ := oq, m_ImuOptQ := iq, m_lastIMU := h, m_lastImuTgps := tg\<rparr>"
    by blast
  then show ?thesis by (simp add: predictorMembers_def optimizedCell_def)
qed

lemma buildBatch_effects:
  assumes "buildBatch E P s fx g = Ready (s1, fs, vs, e)"
  shows "filter isPosePub e = []"
  using assms unfolding buildBatch_def Let_def
  by (simp split: list.splits prod.splits option.splits if_splits) auto


text \<open>The outcomes of an iteration.\<close>

lemma GpsHelper_iter_unfold:
  assumes "selectTrigger s = Some (fx, g, od, s1)"
  shows "GpsHelper_iter E P s =
           (if \<not> m_gotFirstFix s then
              (case fx of None \<Rightarrow> Crashed | Some f \<Rightarrow> bootstrap E P s1 f)
            else if g \<or> od then steady E P s1 fx g
            else Done s1 [])"
  using selectTrigger_members [OF assms] by (simp add: GpsHelper_iter_def assms)

lemma GpsHelper_iter_Done_cases [consumes 1, case_names boot steady idle]:
  assumes "GpsHelper_iter E P s = Done s' out"
  obtains (boot) f g od s1 where "selectTrigger s = Some (Some f, g, od, s1)"
      and "\<not> m_gotFirstFix s" and "bootstrap E P s1 f = Done s' out"
    | (steady) fx g od s1 where "selectTrigger s = Some (fx, g, od, s1)"
      and "m_gotFirstFix s" and "g \<or> od" and "steady E P s1 fx g = Done s' out"
    | (idle) "m_gotFirstFix s" and "qsize (m_gpsOptQ s) = 0" and "qsize (m_odomOptQ s) = 0"
      and "s' = s" and "out = []"
proof (cases "selectTrigger s")
  case None
  with assms show ?thesis by (simp add: GpsHelper_iter_def)
next
  case (Some r)
  obtain fx g od s1 where sel: "selectTrigger s = Some (fx, g, od, s1)"
    using Some by (cases r) auto
  note it = GpsHelper_iter_unfold [OF sel, of E P]
  show ?thesis
  proof (cases "m_gotFirstFix s")
    case False
    with assms it sel boot show ?thesis by (cases fx) auto
  next
    case True
    show ?thesis
    proof (cases "g \<or> od")
      case True
      with assms it sel \<open>m_gotFirstFix s\<close> steady show ?thesis by auto
    next
      case False
      with selectTrigger_idle [OF sel \<open>m_gotFirstFix s\<close>] assms it \<open>m_gotFirstFix s\<close> idle
      show ?thesis by auto
    qed
  qed
qed

lemma steady_Done:
  assumes "steady E P s fx g = Done s' out"
  shows "filter isPosePub out = []
       \<and> m_poseVelKey s' = m_poseVelKey s + 1 \<and> m_biasKey s' = m_biasKey s + 1
       \<and> isam_pose E (m_isam s') (X (m_poseVelKey s + 1)) = Some (fst (m_optimizedState s'))
       \<and> isam_vel E (m_isam s') (V (m_poseVelKey s + 1)) = Some (snd (m_optimizedState s'))
       \<and> isam_bias E (m_isam s') (B (m_biasKey s + 1)) = Some (m_optimizedBias s')
       \<and> m_optimizedTime s' = gh_curTime s"
proof (cases "buildBatch E P s fx g")
  case (Ready r)
  obtain s1 fs vs e where r: "r = (s1, fs, vs, e)" by (cases r) auto
  have m: "m_poseVelKey s1 = m_poseVelKey s" "m_biasKey s1 = m_biasKey s"
    "gh_curTime s1 = gh_curTime s"
    using buildBatch_members Ready r by blast+
  have e: "filter isPosePub e = []"
    using buildBatch_effects Ready r by blast
  show ?thesis
    using assms Ready r m e
    by (auto simp: steady_def writeOptimized_def split: option.splits)
qed (use assms in \<open>simp_all add: steady_def\<close>)

lemma bootstrap_Done:
  assumes "bootstrap E P s f = Done s' out"
  shows "filter isPosePub out = []
       \<and> m_poseVelKey s' = m_poseVelKey s \<and> m_biasKey s' = m_biasKey s
       \<and> optimizedCell s' = optimizedCell s
       \<and> isam_update E (m_isam s)
            (bootstrapFactors (m_prevPose s') (m_previousBias s') (m_imuPgps s))
            (bootstrapVariables E (m_prevPose s') (m_previousBias s') (m_imuPgps s)) =
          Some (m_isam s')"
  using assms unfolding bootstrap_def Let_def
  by (auto simp: optimizedCell_def split: option.splits prod.splits)





text \<open>A run of the node, once the process has ended and while it has not.\<close>

lemma run_Terminated: "run E P Terminated evs = (Terminated, [])"
  by (induction evs) auto

lemma run_Cons_Running:
  assumes "run E P (Running s) (ev # evs) = (Running s', out)"
  obtains s1 o1 o2 where "step E P (Running s) ev = (Running s1, o1)"
    and "run E P (Running s1) evs = (Running s', o2)" and "out = o1 @ o2"
proof -
  obtain n1 o1 where st: "step E P (Running s) ev = (n1, o1)"
    by (cases "step E P (Running s) ev")
  obtain n2 o2 where rn: "run E P n1 evs = (n2, o2)" by (cases "run E P n1 evs")
  from assms st rn have e: "n2 = Running s'" "out = o1 @ o2" by auto
  show ?thesis
  proof (cases n1)
    case Terminated
    with rn e show ?thesis by (simp add: run_Terminated)
  next
    case (Running s1)
    with st rn e that show ?thesis by simp
  qed
qed

subsection \<open>Trigger selection\<close>



subsection \<open>A fault of the solver\<close>

text \<open>
  \<open>Fault\<close> is the outcome of an iteration in which \<^verbatim>\<open>m_isam->update\<close> or one of the calls
  of \<^verbatim>\<open>calculateEstimate\<close> throws; for \<^verbatim>\<open>update\<close>:
\<close>

lemma update_throws_Fault:
  assumes "buildBatch E P s fx g = Ready (s1, fs, vs, e)"
    and "isam_update E (m_isam s1) fs vs = None"
  shows "steady E P s fx g = Fault s1"
  using assms by (simp add: steady_def)



subsection \<open>Epoch keys\<close>

text \<open>
  C3. The constructor sets \<^verbatim>\<open>m_poseVelKey\<close> to 0. An iteration that completes is one of
  three. The first iteration hands the solver the priors at the keys \<^verbatim>\<open>X(0)\<close>, \<^verbatim>\<open>V(0)\<close>,
  \<^verbatim>\<open>B(0)\<close>, \<^verbatim>\<open>G(0)\<close> and leaves the keys and the optimized state alone. An iteration
  after it that finds both the GPS and the odometry queue empty changes nothing. Every other
  iteration raises \<^verbatim>\<open>m_poseVelKey\<close> and \<^verbatim>\<open>m_biasKey\<close> by exactly one, and the state it
  writes under the mutex is the solver's estimate at the keys of the new epoch,
  \<^verbatim>\<open>X(m_poseVelKey+1)\<close>, \<^verbatim>\<open>V(m_poseVelKey+1)\<close> and \<^verbatim>\<open>B(m_biasKey+1)\<close>.
\<close>

theorem epoch_key_steps_by_one:
  assumes "GpsHelper_iter E P s = Done s' out"
  shows "m_poseVelKey (initialMembers E P ip) = 0
       \<and> (if \<not> m_gotFirstFix s then
            m_poseVelKey s' = m_poseVelKey s \<and> m_biasKey s' = m_biasKey s
            \<and> optimizedCell s' = optimizedCell s
            \<and> isam_update E (m_isam s)
                 (bootstrapFactors (m_prevPose s') (m_previousBias s') (m_imuPgps s))
                 (bootstrapVariables E (m_prevPose s') (m_previousBias s') (m_imuPgps s)) =
               Some (m_isam s')
            \<and> map fst (bootstrapVariables E (m_prevPose s') (m_previousBias s') (m_imuPgps s)) =
               [X 0, V 0, B 0, G 0]
          else if qsize (m_gpsOptQ s) = 0 \<and> qsize (m_odomOptQ s) = 0 then s' = s \<and> out = []
          else m_poseVelKey s' = m_poseVelKey s + 1 \<and> m_biasKey s' = m_biasKey s + 1
            \<and> isam_pose E (m_isam s') (X (m_poseVelKey s + 1)) = Some (fst (m_optimizedState s'))
            \<and> isam_vel E (m_isam s') (V (m_poseVelKey s + 1)) = Some (snd (m_optimizedState s'))
            \<and> isam_bias E (m_isam s') (B (m_biasKey s + 1)) = Some (m_optimizedBias s'))"
proof -
  have k0: "m_poseVelKey (initialMembers E P ip) = 0"
    by (simp add: initialMembers_def)
  from assms show ?thesis
  proof (cases rule: GpsHelper_iter_Done_cases)
    case (boot f g od s1)
    from selectTrigger_members [OF boot(1)] bootstrap_Done [OF boot(3)] boot(2) k0
    show ?thesis by (simp add: bootstrapVariables_def predictorMembers_def)
  next
    case (steady fx g od s1)
    from selectTrigger_idle(1) [OF steady(1,2)] steady(3)
    have "\<not> (qsize (m_gpsOptQ s) = 0 \<and> qsize (m_odomOptQ s) = 0)" by auto
    with selectTrigger_members [OF steady(1)] steady_Done [OF steady(4)] steady(2) k0
    show ?thesis by auto
  next
    case idle
    with k0 show ?thesis by simp
  qed
qed

theorem epoch_key_steps_by_one_witness:
  "(\<exists>s' out. GpsHelper_iter testExt testParams firstFixQueued = Done s' out
       \<and> m_poseVelKey s' = 0 \<and> map fst (snd (m_isam s')) = [X 0, V 0, B 0, G 0])
   \<and> (\<exists>s' out. GpsHelper_iter testExt testParams steadyMembers = Done s' out
       \<and> m_poseVelKey steadyMembers = 0 \<and> m_poseVelKey s' = 1 \<and> m_biasKey s' = 1
       \<and> isam_pose testExt (m_isam s') (X 1) = Some (fst (m_optimizedState s'))
       \<and> isam_bias testExt (m_isam s') (B 1) = Some (m_optimizedBias s'))"
proof -
  obtain s1 o1 where d1: "GpsHelper_iter testExt testParams firstFixQueued = Done s1 o1"
    by (simp add: model_defs)
  have "m_isam s1 = (bootstrapFactors (m_prevPose s1) (m_previousBias s1) (m_imuPgps firstFixQueued),
                    bootstrapVariables testExt (m_prevPose s1) (m_previousBias s1)
                      (m_imuPgps firstFixQueued))"
    and "m_poseVelKey s1 = 0"
    using epoch_key_steps_by_one [OF d1, of testPose]
    by (simp_all add: firstFixQueued_def initialMembers_def testExt_def)
  then have a: "m_poseVelKey s1 = 0 \<and> map fst (snd (m_isam s1)) = [X 0, V 0, B 0, G 0]"
    by (simp add: bootstrapVariables_def)
  obtain s2 o2 where d2: "GpsHelper_iter testExt testParams steadyMembers = Done s2 o2"
    by (simp add: model_defs)
  have b: "m_poseVelKey steadyMembers = 0 \<and> m_poseVelKey s2 = 1 \<and> m_biasKey s2 = 1
       \<and> isam_pose testExt (m_isam s2) (X 1) = Some (fst (m_optimizedState s2))
       \<and> isam_bias testExt (m_isam s2) (B 1) = Some (m_optimizedBias s2)"
    using epoch_key_steps_by_one [OF d2, of testPose]
    by (simp add: steadyMembers_def initialMembers_def qsize_def)
  show ?thesis
  proof (intro conjI)
    from d1 a show "\<exists>s' out. GpsHelper_iter testExt testParams firstFixQueued = Done s' out
       \<and> m_poseVelKey s' = 0 \<and> map fst (snd (m_isam s')) = [X 0, V 0, B 0, G 0]"
      by (intro exI [of _ s1] exI [of _ o1]) simp
    from d2 b show "\<exists>s' out. GpsHelper_iter testExt testParams steadyMembers = Done s' out
       \<and> m_poseVelKey steadyMembers = 0 \<and> m_poseVelKey s' = 1 \<and> m_biasKey s' = 1
       \<and> isam_pose testExt (m_isam s') (X 1) = Some (fst (m_optimizedState s'))
       \<and> isam_bias testExt (m_isam s') (B 1) = Some (m_optimizedBias s')"
      by (intro exI [of _ s2] exI [of _ o2]) simp
  qed
qed

subsection \<open>Before the first correction\<close>

text \<open>
  Neither a callback nor an iteration of the corrector lowers \<^verbatim>\<open>m_poseVelKey\<close>, and as
  long as it is 0 the optimized time is 0 and no pose is published.
\<close>

lemma ImuCallback_members:
  "m_poseVelKey (fst (ImuCallback E P s imu)) = m_poseVelKey s \<and>
   m_optimizedTime (fst (ImuCallback E P s imu)) = m_optimizedTime s"
  unfolding ImuCallback_def Let_def by (simp add: split_beta)

lemma ImuCallback_unset:
  "m_optimizedTime s = 0 \<Longrightarrow> filter isPosePub (snd (ImuCallback E P s imu)) = []"
  unfolding ImuCallback_def Let_def by (simp add: split_beta)

lemma GpsHelper_iter_Done:
  assumes "GpsHelper_iter E P s = Done s' out"
  shows "filter isPosePub out = [] \<and> m_poseVelKey s \<le> m_poseVelKey s' \<and>
         (m_poseVelKey s' = 0 \<longrightarrow> m_optimizedTime s' = m_optimizedTime s)"
  using assms
proof (cases rule: GpsHelper_iter_Done_cases)
  case (boot f g od s1)
  from selectTrigger_members [OF boot(1)] bootstrap_Done [OF boot(3)]
  show ?thesis by (simp add: predictorMembers_def optimizedCell_def)
next
  case (steady fx g od s1)
  from selectTrigger_members [OF steady(1)] steady_Done [OF steady(4)]
  show ?thesis by simp
next
  case idle
  then show ?thesis by simp
qed

lemma step_no_epoch:
  assumes "step E P (Running s) ev = (Running s', out)"
    and "m_poseVelKey s \<noteq> 0 \<or> m_optimizedTime s = 0"
  shows "m_poseVelKey s \<le> m_poseVelKey s'
       \<and> (m_poseVelKey s' \<noteq> 0 \<or> m_optimizedTime s' = 0)
       \<and> (m_poseVelKey s' = 0 \<longrightarrow> filter isPosePub out = [])"
proof (cases ev)
  case (GpsMsg f)
  with assms show ?thesis by (auto simp: GpsCallback_def split_beta)
next
  case (OdomMsg m)
  with assms show ?thesis by (auto simp: WheelOdomCallback_def split_beta)
next
  case (ImuMsg m)
  with assms have s': "s' = fst (ImuCallback E P s m)" and o: "out = snd (ImuCallback E P s m)"
    by (auto split: prod.splits)
  show ?thesis
    using assms(2) ImuCallback_members [of E P s m] ImuCallback_unset [of s E P m]
    unfolding s' o by auto
next
  case CorrectorIter
  show ?thesis
  proof (cases "GpsHelper_iter E P s")
    case (Done s2 o2)
    with assms CorrectorIter have "s' = s2" "out = o2" by auto
    with GpsHelper_iter_Done [OF Done] assms(2) show ?thesis by auto
  qed (use assms CorrectorIter in auto)
qed

lemma run_no_epoch:
  assumes "run E P (Running s) evs = (Running s', out)"
    and "m_poseVelKey s \<noteq> 0 \<or> m_optimizedTime s = 0"
    and "m_poseVelKey s' = 0"
  shows "m_poseVelKey s = 0 \<and> m_optimizedTime s' = 0 \<and> filter isPosePub out = []"
  using assms
proof (induction evs arbitrary: s out)
  case Nil
  then show ?case by auto
next
  case (Cons ev evs)
  from Cons.prems(1) obtain s1 o1 o2 where st: "step E P (Running s) ev = (Running s1, o1)"
    and rn: "run E P (Running s1) evs = (Running s', o2)" and out: "out = o1 @ o2"
    by (rule run_Cons_Running)
  note a = step_no_epoch [OF st Cons.prems(2)]
  then have "m_poseVelKey s1 \<noteq> 0 \<or> m_optimizedTime s1 = 0" by blast
  from Cons.IH [OF rn this Cons.prems(3)] a out show ?case by auto
qed

text \<open>
  C9. \<^verbatim>\<open>m_optimizedTime\<close> is written only by a completed steady iteration, which also
  raises \<^verbatim>\<open>m_poseVelKey\<close>. However the callbacks and the iterations of the corrector are
  interleaved after the constructor, as long as no steady iteration has completed
  (\<^verbatim>\<open>m_poseVelKey\<close> is still 0) no pose has been published, and \<^verbatim>\<open>ImuCallback\<close> publishes
  none for the next inertial sample either.
\<close>

theorem no_pose_before_first_correction:
  assumes "run E P (Running (initialMembers E P ip)) evs = (Running s, out)"
    and "m_poseVelKey s = 0"
  shows "filter isPosePub out = [] \<and> filter isPosePub (snd (ImuCallback E P s imu)) = []"
proof -
  have "m_poseVelKey (initialMembers E P ip) \<noteq> 0 \<or> m_optimizedTime (initialMembers E P ip) = 0"
    by (simp add: initialMembers_def)
  from run_no_epoch [OF assms(1) this assms(2)] show ?thesis
    by (simp add: ImuCallback_unset)
qed

theorem no_pose_before_first_correction_witness:
  "\<exists>s out. run testExt testParams (Running (initialMembers testExt testParams testPose))
               bootstrapped = (Running s, out)
     \<and> m_poseVelKey s = 0 \<and> m_gotFirstFix s
     \<and> filter isPosePub out = []
     \<and> filter isPosePub (snd (ImuCallback testExt testParams s (imuAt 40))) = []"
proof -
  obtain s out where
    r: "run testExt testParams (Running (initialMembers testExt testParams testPose))
          bootstrapped = (Running s, out)"
    and k: "m_poseVelKey s = 0" and g: "m_gotFirstFix s"
    by (simp add: bootstrapped_def model_defs)
  from no_pose_before_first_correction [OF r k, of "imuAt 40"] r k g
  show ?thesis by (intro exI [of _ s] exI [of _ out]) simp
qed

subsection \<open>The parameter \<^verbatim>\<open>GpsSkip\<close>\<close>

text \<open>No function of the node reads \<^verbatim>\<open>m_gpsSkip\<close>.\<close>

lemma GetAccGyro_GpsSkip: "GetAccGyro (P\<lparr>GpsSkip := g\<rparr>) imu = GetAccGyro P imu"
  by (simp add: GetAccGyro_def)

lemma integrateAll_GpsSkip:
  "integrateAll (P\<lparr>GpsSkip := g\<rparr>) ms prev p gy = integrateAll P ms prev p gy"
  by (induction ms arbitrary: prev p gy) (simp_all add: GetAccGyro_GpsSkip)

lemma integrateUpTo_GpsSkip:
  "integrateUpTo (P\<lparr>GpsSkip := g\<rparr>) T held tg p ms = integrateUpTo P T held tg p ms"
  by (induction ms arbitrary: held tg p) (simp_all add: GetAccGyro_GpsSkip)

lemma ImuCallback_GpsSkip: "ImuCallback E (P\<lparr>GpsSkip := g\<rparr>) s imu = ImuCallback E P s imu"
  by (simp add: ImuCallback_def predictAndPublish_def integrateAll_GpsSkip GetAccGyro_GpsSkip
      cong: prod.case_cong if_cong)

lemma GpsHelper_iter_GpsSkip: "GpsHelper_iter E (P\<lparr>GpsSkip := g\<rparr>) s = GpsHelper_iter E P s"
  by (simp add: GpsHelper_iter_def steady_def bootstrap_def buildBatch_def integrateUpTo_GpsSkip
      cong: prod.case_cong if_cong list.case_cong option.case_cong)

lemma step_GpsSkip: "step E (P\<lparr>GpsSkip := g\<rparr>) n ev = step E P n ev"
  by (cases n; cases ev) (simp_all add: ImuCallback_GpsSkip GpsHelper_iter_GpsSkip)

lemma run_GpsSkip: "run E (P\<lparr>GpsSkip := g\<rparr>) n evs = run E P n evs"
  by (induction evs arbitrary: n) (simp_all add: step_GpsSkip)

lemma construct_GpsSkip: "construct E (P\<lparr>GpsSkip := g\<rparr>) attempts = construct E P attempts"
proof -
  have "initialMembers E (P\<lparr>GpsSkip := g\<rparr>) ip = initialMembers E P ip" for ip
    by (simp add: initialMembers_def)
  then show ?thesis
    by (simp add: construct_def cong: prod.case_cong option.case_cong)
qed

text \<open>
  C10. \<^verbatim>\<open>m_gpsSkip\<close> is read from the parameter server and printed by the constructor,
  and nothing else is done with it: for any two values of \<^verbatim>\<open>GpsSkip\<close>, the same results
  of the initial wait give the same object, and from the same node every sequence of
  messages and corrector iterations gives the same node (the optimized states written
  included) and the same published messages.
\<close>

theorem GpsSkip_has_no_effect:
  "construct E (P\<lparr>GpsSkip := g1\<rparr>) attempts = construct E (P\<lparr>GpsSkip := g2\<rparr>) attempts
   \<and> run E (P\<lparr>GpsSkip := g1\<rparr>) n evs = run E (P\<lparr>GpsSkip := g2\<rparr>) n evs"
  by (simp add: construct_GpsSkip run_GpsSkip)

theorem GpsSkip_has_no_effect_witness:
  "construct testExt (testParams\<lparr>GpsSkip := 1\<rparr>) [Some testPose] =
     construct testExt (testParams\<lparr>GpsSkip := 100\<rparr>) [Some testPose]
   \<and> run testExt (testParams\<lparr>GpsSkip := 1\<rparr>) testNode lateStart =
     run testExt (testParams\<lparr>GpsSkip := 100\<rparr>) testNode lateStart"
  using GpsSkip_has_no_effect [where E = testExt and P = testParams and ?g1.0 = 1 and ?g2.0 = 100
      and attempts = "[Some testPose]" and n = testNode and evs = lateStart]
  by simp

subsection \<open>Rebuilding the prediction\<close>

text \<open>
  C2. \<^verbatim>\<open>ImuCallback\<close> does not compare the optimized time with the one it saw before: it
  rebuilds the predictor exactly when the front of \<^verbatim>\<open>m_imuMeasurements\<close> is older than the
  optimized time, and its other branch carries the comment "no new optimized pose". In the
  run \<open>lateStart\<close> the first two inertial samples (20, 30) are later than both fixes (10, 12).
  They are buffered while the optimized time is still 0; the second iteration of the
  corrector then writes the optimized time 12. For the third sample (40) the optimized time
  has changed since the call before, no buffered sample is older than it, and the branch
  taken is the one that folds in the newest sample alone: the predictor holds one
  measurement, while the buffer holds three from which the rebuilding loop would have
  integrated three.
\<close>

theorem late_start_folds_newest_sample_only:
  "map_option m_optimizedTime
     (membersOf (fst (run testExt testParams testNode
        (bootstrapped @ [GpsMsg (fixAt 12), OdomMsg (odomAt 11), OdomMsg (odomAt 13)])))) = Some 0
   \<and> map_option m_optimizedTime (membersOf (fst (run testExt testParams testNode lateStart))) =
       Some 12
   \<and> map_option m_imuMeasurements (membersOf (fst (run testExt testParams testNode lateStart))) =
       Some [imuAt 20, imuAt 30, imuAt 40]
   \<and> map_option m_imuPredictor (membersOf (fst (run testExt testParams testNode lateStart))) =
       Some \<lparr>pi_gravity = 9.8, biasHat = zeroBias, integrated = [((0, 0, 0), (1, 0, 0), 10)]\<rparr>
   \<and> integrated (fst (snd (integrateAll testParams [imuAt 20, imuAt 30, imuAt 40] 10
                             (resetIntegration (newPreint 9.8 zeroBias)) None))) =
       [((0, 0, 0), (1, 0, 0), 10), ((0, 0, 0), (1, 0, 0), 10), ((0, 0, 0), (1, 0, 0), 10)]"
  by (simp add: lateStart_def bootstrapped_def model_defs)

theorem late_start_folds_newest_sample_only_witness:
  "map_option (\<lambda>s. (length (integrated (m_imuPredictor s)), length (m_imuMeasurements s)))
     (membersOf (fst (run testExt testParams testNode lateStart))) = Some (1, 3)"
proof (cases "membersOf (fst (run testExt testParams testNode lateStart))")
  case None
  with late_start_folds_newest_sample_only show ?thesis by simp
next
  case (Some s)
  with late_start_folds_newest_sample_only
  have "m_imuMeasurements s = [imuAt 20, imuAt 30, imuAt 40]"
    and "m_imuPredictor s =
           \<lparr>pi_gravity = 9.8, biasHat = zeroBias, integrated = [((0, 0, 0), (1, 0, 0), 10)]\<rparr>"
    by simp_all
  with Some show ?thesis by simp
qed

subsection \<open>The published angular rate\<close>

text \<open>
  The claim C5 reads the angular rate of the published pose as the measured rate with the
  gyroscope bias removed. In the run \<open>lateStart\<close> the optimized gyroscope bias is
  \<open>(1, 0, 0)\<close>, the measured rate of the sample is \<open>(1, 0, 0)\<close>, and the pose published
  carries \<open>(2, 0, 0)\<close>, not \<open>(1 - 1, 0 - 0, 0 - 0)\<close>.
\<close>

theorem published_rate_adds_bias:
  "map_option m_optimizedBias (membersOf (fst (run testExt testParams testNode lateStart))) =
     Some ((0, 0, 0), (1, 0, 0))
   \<and> angular_velocity (imuAt 40) = (1, 0, 0)
   \<and> map pm_angular (published (snd (run testExt testParams testNode lateStart))) =
     [Some (2, 0, 0)]
   \<and> map pm_angular (published (snd (run testExt testParams testNode lateStart))) \<noteq>
     [Some (1 - 1, 0 - 0, 0 - 0)]"
  by (simp add: lateStart_def bootstrapped_def model_defs)

text \<open>The local \<^verbatim>\<open>gyro\<close> at the end of either branch of \<^verbatim>\<open>ImuCallback\<close>.\<close>

lemma published_append: "published (a @ b) = published a @ published b"
  by (induction a rule: published.induct) simp_all

lemma discardOld_keeps_last:
  "\<not> imu_stamp imu < T \<Longrightarrow>
     \<exists>pre. fst (discardOld T (ms @ [imu]) prev nm) = pre @ [imu]"
  by (induction ms arbitrary: prev nm) auto

lemma integrateAll_gyro:
  "snd (snd (integrateAll P (ms @ [m]) prev p g)) = Some (snd (GetAccGyro P m))"
  by (induction ms arbitrary: prev p g) (simp_all add: split_beta)

lemma predictAndPublish_angular:
  assumes "\<not> imu_stamp imu < t"
  shows "map pm_angular (published (snd (predictAndPublish E P st b t (ms @ [imu]) qp pr imu dt))) =
           [Some (addBias (snd (GetAccGyro P imu)) (gyroscope b))]"
proof -
  from discardOld_keeps_last [OF assms] obtain pre where
    d: "fst (discardOld t (ms @ [imu]) qp False) = pre @ [imu]" by blast
  show ?thesis
    unfolding predictAndPublish_def Let_def
    by (cases "snd (GetAccGyro P imu)") (simp add: split_beta d integrateAll_gyro)
qed

text \<open>
  C5, as the code has it. For a sample that is not older than the optimized time, once a
  correction has been written, \<^verbatim>\<open>ImuCallback\<close> publishes one pose, and its angular rate is,
  axis by axis, the measured rate of that sample (negated where the axis is inverted) plus
  the gyroscope bias of the optimized state.
\<close>

theorem published_rate_is_rate_plus_bias:
  assumes "m_optimizedTime s \<noteq> 0" and "\<not> imu_stamp imu < m_optimizedTime s"
    and "angular_velocity imu = (wx, wy, wz)" and "gyroscope (m_optimizedBias s) = (bx, by, bz)"
  shows "map pm_angular (published (snd (ImuCallback E P s imu))) =
           [Some ((if InvertX P then - wx else wx) + bx,
                  (if InvertY P then - wy else wy) + by,
                  (if InvertZ P then - wz else wz) + bz)]"
proof -
  have g: "addBias (snd (GetAccGyro P imu)) (gyroscope (m_optimizedBias s)) =
             ((if InvertX P then - wx else wx) + bx,
              (if InvertY P then - wy else wy) + by,
              (if InvertZ P then - wz else wz) + bz)"
    using assms(3,4) by (simp add: GetAccGyro_def addBias_def split_beta)
  have w: "published (if c then [WarnQueueSize n] else []) = []"
          "published (if c then [Warn x] else []) = []" for c n x
    by simp_all
  show ?thesis
    unfolding ImuCallback_def Let_def
    using assms(1)
    by (simp add: split_beta published_append w predictAndPublish_angular [OF assms(2)] g)
qed

theorem published_rate_is_rate_plus_bias_witness:
  "map pm_angular (published (snd (ImuCallback testExt testParams anchored (imuAt 40)))) =
     [Some (2, 0, 0)]"
proof -
  have "m_optimizedTime anchored \<noteq> 0" and "\<not> imu_stamp (imuAt 40) < m_optimizedTime anchored"
    and "angular_velocity (imuAt 40) = (1, 0, 0)"
    and "gyroscope (m_optimizedBias anchored) = (1, 0, 0)"
    by (simp_all add: anchored_def imuAt_def gyroscope_def)
  from published_rate_is_rate_plus_bias [OF this, of testExt testParams]
  show ?thesis by (simp add: testParams_def)
qed

subsection \<open>The wheel odometry factor\<close>


text \<open>What the odometry part leaves in the queue and in the batch.\<close>

lemma advanceLast_rest:
  "snd (advanceLast T l r) = dropWhile (\<lambda>m. odom_stamp m < T) r"
  by (induction r arbitrary: l) simp_all

lemma buildBatch_odom:
  assumes "buildBatch E P s fx g = Ready (s1, fs, vs, e)"
    and "dropWhile (\<lambda>m. odom_stamp m < gh_prevTime s) (items (m_odomOptQ s)) = a # b # rest"
  shows "filter isOdomFactor fs =
           filter isOdomFactor (snd (odomPart (m_poseVelKey s) g (gh_curTime s) a b rest))
       \<and> items (m_odomOptQ s1) = fst (odomPart (m_poseVelKey s) g (gh_curTime s) a b rest)"
  using assms unfolding buildBatch_def Let_def
  by (simp add: split_beta split: option.splits if_splits) auto



subsection \<open>Full queues\<close>

text \<open>
  The claim C6 has a warning for every dropped sample. With the odometry queue at its
  capacity of 100, \<^verbatim>\<open>WheelOdomCallback\<close> leaves the members as they are and prints
  nothing: the line that would print is commented out.
\<close>

theorem odometry_drop_is_silent:
  "qsize (m_odomOptQ fullQueues) = maxSize (m_odomOptQ fullQueues)
   \<and> WheelOdomCallback fullQueues (odomAt 2) = (fullQueues, [])
   \<and> filter isDropWarning (snd (WheelOdomCallback fullQueues (odomAt 2))) = []"
  by (simp add: fullQueues_def WheelOdomCallback_def pushNonBlocking_def qsize_def)

text \<open>Pushing keeps a queue within its capacity, and the corrector only pops.\<close>

lemma pushNonBlocking_bounded:
  "qsize q \<le> maxSize q \<Longrightarrow>
     qsize (snd (pushNonBlocking q x)) \<le> maxSize (snd (pushNonBlocking q x))"
  by (simp add: pushNonBlocking_def qsize_def)

lemma pushNonBlocking_full:
  "qsize q = maxSize q \<Longrightarrow> pushNonBlocking q x = (False, q)"
  by (simp add: pushNonBlocking_def)

lemma ImuCallback_queues:
  "m_ImuOptQ (fst (ImuCallback E P s imu)) = snd (pushNonBlocking (m_ImuOptQ s) imu)
   \<and> m_gpsOptQ (fst (ImuCallback E P s imu)) = m_gpsOptQ s
   \<and> m_odomOptQ (fst (ImuCallback E P s imu)) = m_odomOptQ s"
  unfolding ImuCallback_def Let_def by (simp add: split_beta)

lemma ImuCallback_full:
  assumes "qsize (m_ImuOptQ s) = maxSize (m_ImuOptQ s)"
  shows "Warn ''Dropping an IMU measurement due to full queue!!'' \<in> set (snd (ImuCallback E P s imu))"
  unfolding ImuCallback_def Let_def
  by (simp add: split_beta pushNonBlocking_full [OF assms])

lemma readImuUpTo_length:
  "readImuUpTo T h tg q = Some (h', tg', r) \<Longrightarrow> length r \<le> length q"
  by (induction q arbitrary: h tg) (auto split: if_splits intro: le_SucI)

lemma integrateUpTo_length:
  "integrateUpTo P T h tg p q = Some (h', tg', p', r) \<Longrightarrow> length r \<le> length q"
  by (induction q arbitrary: h tg p) (auto split: if_splits prod.splits intro: le_SucI)

lemma selectTrigger_bounded:
  assumes "selectTrigger s = Some (fx, g, od, s1)" and "queuesBounded s"
  shows "queuesBounded s1"
  using assms
  by (auto simp: selectTrigger_def queuesBounded_def qsize_def popBlocking_def drainGps_last
      split: if_splits list.splits)

lemma bootstrap_bounded:
  assumes "bootstrap E P s f = Done s' out" and "queuesBounded s"
  shows "queuesBounded s'"
  using assms unfolding bootstrap_def Let_def
  by (auto simp: queuesBounded_def qsize_def popBlocking_def
      split: option.splits list.splits dest!: readImuUpTo_length)

lemma buildBatch_bounded:
  assumes "buildBatch E P s fx g = Ready (s1, fs, vs, e)" and "queuesBounded s"
  shows "queuesBounded s1"
proof -
  from buildBatch_pair [OF assms(1)] obtain a b rest where
    d: "dropWhile (\<lambda>m. odom_stamp m < gh_prevTime s) (items (m_odomOptQ s)) = a # b # rest"
    by blast
  have "length (a # b # rest) \<le> length (items (m_odomOptQ s))"
    unfolding d [symmetric] by (rule length_dropWhile_le)
  moreover have "length (dropWhile (\<lambda>m. odom_stamp m < gh_curTime s) rest) \<le> length rest"
    by (rule length_dropWhile_le)
  ultimately have o: "length (items (m_odomOptQ s1)) \<le> length (items (m_odomOptQ s))"
    using buildBatch_odom [OF assms(1) d]
    by (auto simp: odomPart_def split_beta advanceLast_rest split: if_splits)
  have i: "length (items (m_ImuOptQ s1)) \<le> length (items (m_ImuOptQ s))"
    and m: "maxSize (m_odomOptQ s1) = maxSize (m_odomOptQ s)"
           "maxSize (m_ImuOptQ s1) = maxSize (m_ImuOptQ s)"
    using assms(1) unfolding buildBatch_def Let_def d
    by (simp_all add: split_beta split: option.splits if_splits)
       (auto dest: integrateUpTo_length)
  from buildBatch_members [OF assms(1)] o i m assms(2) show ?thesis
    by (simp add: queuesBounded_def qsize_def)
qed

lemma steady_bounded:
  assumes "steady E P s fx g = Done s' out" and "queuesBounded s"
  shows "queuesBounded s'"
proof (cases "buildBatch E P s fx g")
  case (Ready r)
  obtain s1 fs vs e where r: "r = (s1, fs, vs, e)" by (cases r) auto
  have "queuesBounded s1" using buildBatch_bounded Ready r assms(2) by blast
  then show ?thesis
    using assms(1) Ready r
    by (auto simp: steady_def writeOptimized_def queuesBounded_def split: option.splits)
qed (use assms in \<open>simp_all add: steady_def\<close>)

lemma step_bounded:
  assumes "step E P (Running s) ev = (Running s', out)" and "queuesBounded s"
  shows "queuesBounded s'"
proof (cases ev)
  case (GpsMsg f)
  with assms show ?thesis
    by (auto simp: GpsCallback_def queuesBounded_def pushNonBlocking_def qsize_def
        split: if_splits)
next
  case (OdomMsg m)
  with assms show ?thesis
    by (auto simp: WheelOdomCallback_def queuesBounded_def pushNonBlocking_def qsize_def
        split: if_splits)
next
  case (ImuMsg m)
  with assms have s': "s' = fst (ImuCallback E P s m)" by (auto split: prod.splits)
  show ?thesis
    using assms(2) pushNonBlocking_bounded [of "m_ImuOptQ s" m]
    unfolding s' queuesBounded_def by (simp add: ImuCallback_queues)
next
  case CorrectorIter
  show ?thesis
  proof (cases "GpsHelper_iter E P s")
    case (Done s2 o2)
    with assms CorrectorIter have s2: "s' = s2" by auto
    from Done show ?thesis unfolding s2
    proof (cases rule: GpsHelper_iter_Done_cases)
      case (boot f g od s1)
      from bootstrap_bounded [OF boot(3) selectTrigger_bounded [OF boot(1) assms(2)]]
      show "queuesBounded s2" .
    next
      case (steady fx g od s1)
      from steady_bounded [OF steady(4) selectTrigger_bounded [OF steady(1) assms(2)]]
      show "queuesBounded s2" .
    next
      case idle
      with assms(2) show "queuesBounded s2" by simp
    qed
  qed (use assms CorrectorIter in auto)
qed

lemma run_bounded:
  assumes "run E P (Running s) evs = (Running s', out)" and "queuesBounded s"
  shows "queuesBounded s'"
  using assms
proof (induction evs arbitrary: s out)
  case Nil
  then show ?case by simp
next
  case (Cons ev evs)
  from Cons.prems(1) obtain s1 o1 o2 where st: "step E P (Running s) ev = (Running s1, o1)"
    and rn: "run E P (Running s1) evs = (Running s', o2)"
    by (rule run_Cons_Running)
  from Cons.IH [OF rn step_bounded [OF st Cons.prems(2)]] show ?case .
qed

text \<open>
  C6, as the code has it. On a full queue \<^verbatim>\<open>GpsCallback\<close> leaves the members as they are
  and warns; \<^verbatim>\<open>ImuCallback\<close> leaves \<^verbatim>\<open>m_ImuOptQ\<close> as it is and warns (the sample still goes
  into \<^verbatim>\<open>m_imuMeasurements\<close>); \<^verbatim>\<open>WheelOdomCallback\<close> leaves the members as they are and
  does not warn. Every callback returns. However callbacks and corrector iterations are
  interleaved after the constructor, no queue holds more than its capacity.
\<close>

theorem full_queue_drop_and_bound:
  "(qsize (m_gpsOptQ s) = maxSize (m_gpsOptQ s) \<longrightarrow>
      GpsCallback s f = (s, [Warn ''Dropping a GPS measurement due to full queue!!'']))
   \<and> (qsize (m_ImuOptQ s) = maxSize (m_ImuOptQ s) \<longrightarrow>
      m_ImuOptQ (fst (ImuCallback E P s imu)) = m_ImuOptQ s
      \<and> Warn ''Dropping an IMU measurement due to full queue!!'' \<in> set (snd (ImuCallback E P s imu)))
   \<and> (qsize (m_odomOptQ s) = maxSize (m_odomOptQ s) \<longrightarrow> WheelOdomCallback s od = (s, []))
   \<and> (run E P (Running (initialMembers E P ip)) evs = (Running s', out) \<longrightarrow> queuesBounded s')"
proof -
  have "queuesBounded (initialMembers E P ip)"
    by (simp add: queuesBounded_def initialMembers_def newQueue_def qsize_def)
  then have "queuesBounded s'"
    if "run E P (Running (initialMembers E P ip)) evs = (Running s', out)"
    using run_bounded [OF that] by simp
  then show ?thesis
    by (simp add: GpsCallback_def WheelOdomCallback_def ImuCallback_queues ImuCallback_full
        pushNonBlocking_full)
qed

theorem full_queue_drop_and_bound_witness:
  "GpsCallback fullQueues (fixAt 2) =
     (fullQueues, [Warn ''Dropping a GPS measurement due to full queue!!''])
   \<and> m_ImuOptQ (fst (ImuCallback testExt testParams fullQueues (imuAt 2))) = m_ImuOptQ fullQueues
   \<and> Warn ''Dropping an IMU measurement due to full queue!!''
       \<in> set (snd (ImuCallback testExt testParams fullQueues (imuAt 2)))
   \<and> WheelOdomCallback fullQueues (odomAt 2) = (fullQueues, [])
   \<and> map_option queuesBounded (membersOf (fst (run testExt testParams testNode lateStart))) =
       Some True"
proof -
  have q: "qsize (m_gpsOptQ fullQueues) = maxSize (m_gpsOptQ fullQueues)"
    "qsize (m_ImuOptQ fullQueues) = maxSize (m_ImuOptQ fullQueues)"
    "qsize (m_odomOptQ fullQueues) = maxSize (m_odomOptQ fullQueues)"
    by (simp_all add: fullQueues_def qsize_def)
  obtain s' out where
    r: "run testExt testParams (Running (initialMembers testExt testParams testPose))
          lateStart = (Running s', out)"
    by (simp add: lateStart_def bootstrapped_def model_defs)
  from full_queue_drop_and_bound [of fullQueues "fixAt 2" testExt testParams "imuAt 2" "odomAt 2"
      testPose lateStart s' out] q r
  show ?thesis by (simp add: testNode_def)
qed

subsection \<open>The wait for the initial data\<close>








end
